theory Spec2Isabelle
  imports Main
begin

section \<open>Python values used by sfidenum.py\<close>

text \<open>
  Python's \<open>int\<close> is unbounded and is modelled by \<open>int\<close>. A Python \<open>str\<close> is a sequence
  of Unicode code points; it is modelled by \<open>string\<close>, where a \<open>char\<close> stands for the code
  point of the same number, so the model covers the strings over U+0000 .. U+00FF. The
  character classes below are CPython's \<open>str.isspace\<close>, \<open>str.isalnum\<close> and
  \<open>str.isupper\<close> on that range. An exception is a value of type \<open>error\<close>; a function
  that can raise returns \<open>error + 'a\<close>, with \<open>Inl\<close> for the raised exception.
\<close>

datatype error = ValueError string

definition char_isspace :: "char \<Rightarrow> bool" where
  "char_isspace c =
     (let n = (of_char c :: nat)
      in (0x09 \<le> n \<and> n \<le> 0x0D) \<or> (0x1C \<le> n \<and> n \<le> 0x20) \<or> n = 0x85 \<or> n = 0xA0)"

definition char_isalnum :: "char \<Rightarrow> bool" where
  "char_isalnum c =
     (let n = (of_char c :: nat)
      in (0x30 \<le> n \<and> n \<le> 0x39) \<or> (0x41 \<le> n \<and> n \<le> 0x5A) \<or> (0x61 \<le> n \<and> n \<le> 0x7A)
         \<or> n = 0xAA \<or> n = 0xB2 \<or> n = 0xB3 \<or> n = 0xB5 \<or> n = 0xB9 \<or> n = 0xBA
         \<or> (0xBC \<le> n \<and> n \<le> 0xBE) \<or> (0xC0 \<le> n \<and> n \<le> 0xD6)
         \<or> (0xD8 \<le> n \<and> n \<le> 0xF6) \<or> (0xF8 \<le> n \<and> n \<le> 0xFF))"

definition char_isupper :: "char \<Rightarrow> bool" where
  "char_isupper c =
     (let n = (of_char c :: nat)
      in (0x41 \<le> n \<and> n \<le> 0x5A) \<or> (0xC0 \<le> n \<and> n \<le> 0xD6) \<or> (0xD8 \<le> n \<and> n \<le> 0xDE))"

definition char_isprintable :: "char \<Rightarrow> bool" where
  "char_isprintable c =
     (let n = (of_char c :: nat)
      in \<not> (n \<le> 0x1F \<or> (0x7F \<le> n \<and> n \<le> 0xA0) \<or> n = 0xAD))"

text \<open>\<open>s.isalnum()\<close>: every character is alphanumeric and there is at least one.\<close>

definition py_isalnum :: "string \<Rightarrow> bool" where
  "py_isalnum s = (s \<noteq> [] \<and> list_all char_isalnum s)"

text \<open>\<open>s.strip()\<close>: leading and trailing whitespace removed.\<close>

definition py_strip :: "string \<Rightarrow> string" where
  "py_strip s = rev (dropWhile char_isspace (rev (dropWhile char_isspace s)))"

text \<open>\<open>s.find(ch)\<close> for a one-character \<open>ch\<close>: the first index of \<open>ch\<close>, or \<open>-1\<close>.\<close>

fun find_from :: "string \<Rightarrow> char \<Rightarrow> int \<Rightarrow> int" where
  "find_from [] ch i = - 1"
| "find_from (c # cs) ch i = (if c = ch then i else find_from cs ch (i + 1))"

definition py_find :: "string \<Rightarrow> char \<Rightarrow> int" where
  "py_find s ch = find_from s ch 0"

text \<open>\<open>str(n)\<close> for an integer: its decimal digits, with a minus sign when negative.\<close>

function int_digits :: "int \<Rightarrow> string" where
  "int_digits n =
     (if n < 10 then [''0123456789'' ! nat n]
      else int_digits (n div 10) @ [''0123456789'' ! nat (n mod 10)])"
  by pat_completeness auto
termination
  by (relation "measure nat") auto

declare int_digits.simps [simp del]

definition py_str_int :: "int \<Rightarrow> string" where
  "py_str_int i = (if i < 0 then CHR ''-'' # int_digits (- i) else int_digits i)"

text \<open>
  \<open>repr(ch)\<close> for a one-character string (the \<open>{ch!r}\<close> of an f-string): the character
  in single quotes, in double quotes when it is the single quote itself, with the
  backslash doubled, tab, newline and carriage return as \<open>\t\<close>, \<open>\n\<close>, \<open>\r\<close> and every
  other non-printable character as \<open>\xNN\<close>.
\<close>

definition hex2 :: "nat \<Rightarrow> string" where
  "hex2 n = [''0123456789abcdef'' ! (n div 16 mod 16), ''0123456789abcdef'' ! (n mod 16)]"

definition py_repr_char :: "char \<Rightarrow> string" where
  "py_repr_char c =
     (if c = CHR 0x27 then [CHR 0x22, c, CHR 0x22]
      else [CHR 0x27] @
        (if c = CHR 0x5C then [CHR 0x5C, CHR 0x5C]
         else if c = CHR 0x09 then [CHR 0x5C, CHR ''t'']
         else if c = CHR 0x0A then [CHR 0x5C, CHR ''n'']
         else if c = CHR 0x0D then [CHR 0x5C, CHR ''r'']
         else if char_isprintable c then [c]
         else [CHR 0x5C, CHR ''x''] @ hex2 (of_char c))
        @ [CHR 0x27])"

section \<open>Base62 with the Salesforce alphabet\<close>

definition ALPHABET :: string where
  "ALPHABET = ''0123456789ABCDEFGHIJKLMNOPQRSTUVWXYZabcdefghijklmnopqrstuvwxyz''"

definition BASE :: int where
  "BASE = int (length ALPHABET)"

definition MAX_BASE62_8 :: int where
  "MAX_BASE62_8 = BASE ^ 8 - 1"

text \<open>
  The \<open>while n > 0\<close> loop of \<open>int_to_base62\<close>: \<open>n, r = divmod(n, BASE)\<close> and
  \<open>chars.append(ALPHABET[r])\<close>. On a positive \<open>n\<close> Python's \<open>divmod\<close> is \<open>div\<close> and \<open>mod\<close>.
\<close>

function encode_loop :: "int \<Rightarrow> string \<Rightarrow> string" where
  "encode_loop n chars =
     (if n > 0 then encode_loop (n div BASE) (chars @ [ALPHABET ! nat (n mod BASE)])
      else chars)"
  by pat_completeness auto
termination
  by (relation "measure (\<lambda>(n, chars). nat n)") (auto simp: BASE_def ALPHABET_def)

declare encode_loop.simps [simp del]

definition int_to_base62 :: "int \<Rightarrow> int \<Rightarrow> error + string" where
  "int_to_base62 n min_len =
     (if n < 0 then Inl (ValueError ''Only non-negative integers are supported'')
      else
        let s = (if n = 0 then ''0'' else rev (encode_loop n []))
        in if int (length s) < min_len
           then Inr (replicate (nat (min_len - int (length s))) (CHR ''0'') @ s)
           else Inr s)"

text \<open>The \<open>for ch in s\<close> loop of \<open>base62_to_int\<close>, from the accumulator \<open>n\<close>.\<close>

fun decode_loop :: "int \<Rightarrow> string \<Rightarrow> error + int" where
  "decode_loop n [] = Inr n"
| "decode_loop n (ch # s) =
     (let i = py_find ALPHABET ch
      in if i = - 1
         then Inl (ValueError (''Invalid Base62 character: '' @ py_repr_char ch))
         else decode_loop (n * BASE + i) s)"

definition base62_to_int :: "string \<Rightarrow> error + int" where
  "base62_to_int s = decode_loop 0 s"

section \<open>The 15 to 18 character checksum\<close>

definition MAPPING :: string where
  "MAPPING = ''ABCDEFGHIJKLMNOPQRSTUVWXYZ012345''"

text \<open>
  \<open>int(bits, 2)\<close>, read most significant digit first. \<open>id15_to_18\<close> only calls it on the
  string \<open>bits\<close> it has built from the characters \<open>'1'\<close> and \<open>'0'\<close>, where Python's parser
  does exactly this.
\<close>

fun int_base2_from :: "int \<Rightarrow> string \<Rightarrow> int" where
  "int_base2_from acc [] = acc"
| "int_base2_from acc (c # cs) = int_base2_from (2 * acc + (if c = CHR ''1'' then 1 else 0)) cs"

definition py_int_base2 :: "string \<Rightarrow> int" where
  "py_int_base2 bits = int_base2_from 0 bits"

definition id15_to_18 :: "string \<Rightarrow> error + string" where
  "id15_to_18 id15 =
     (if length id15 \<noteq> 15
      then Inl (ValueError ''15->18 conversion requires exactly 15 characters'')
      else
        let segments = map (\<lambda>i. take 5 (drop i id15)) [0, 5, 10];
            reversed_segments = map rev segments;
            suffix_chars =
              map (\<lambda>seg.
                     let bits = map (\<lambda>c. if char_isupper c then CHR ''1'' else CHR ''0'') seg;
                         idx = py_int_base2 bits
                     in MAPPING ! nat idx)
                reversed_segments
        in Inr (id15 @ suffix_chars))"

section \<open>Normalising and composing identifiers\<close>

definition normalize_to_15 :: "string \<Rightarrow> error + string" where
  "normalize_to_15 sfid =
     (if sfid = [] then Inl (ValueError ''Salesforce ID must be a non-empty string'')
      else
        let sfid = py_strip sfid
        in if length sfid \<noteq> 18 \<and> length sfid \<noteq> 15
           then Inl (ValueError ''Salesforce ID must be 15 or 18 characters long'')
           else
             let core = (if length sfid = 18 then take 15 sfid else sfid)
             in if \<not> py_isalnum core
                then Inl (ValueError ''Salesforce ID must be alphanumeric'')
                else Inr core)"

definition split_id_components :: "string \<Rightarrow> error + string \<times> string" where
  "split_id_components id15 =
     (if length id15 \<noteq> 15 then Inl (ValueError ''Expected a 15-char ID'')
      else Inr (take 7 id15, drop 7 id15))"

definition clamp_record_value :: "int \<Rightarrow> int" where
  "clamp_record_value v = max 0 (min MAX_BASE62_8 v)"

definition make_id :: "string \<Rightarrow> int \<Rightarrow> bool \<Rightarrow> error + string \<times> string \<times> int" where
  "make_id prefix7 value to18 =
     (let v = clamp_record_value value
      in case int_to_base62 v 8 of
           Inl e \<Rightarrow> Inl e
         | Inr b62 \<Rightarrow>
             let id15 = prefix7 @ b62
             in if to18
                then (case id15_to_18 id15 of
                        Inl e \<Rightarrow> Inl e
                      | Inr id_out \<Rightarrow> Inr (id_out, b62, v))
                else Inr (id15, b62, v))"

section \<open>The sequence of counter values\<close>

text \<open>
  The \<open>while produced < count\<close> loop of the generator \<open>gen_value_sequence\<close>; the result
  is the list of the values it yields, which is what \<open>list(...)\<close> in \<open>main\<close> collects.
\<close>

function gen_loop :: "int \<Rightarrow> int \<Rightarrow> int \<Rightarrow> int \<Rightarrow> int list" where
  "gen_loop count step current produced =
     (if produced < count
      then (if 0 \<le> current \<and> current \<le> MAX_BASE62_8
            then current # gen_loop count step (current + step) (produced + 1)
            else [])
      else [])"
  by pat_completeness auto
termination
  by (relation "measure (\<lambda>(count, step, current, produced). nat (count - produced))") auto

declare gen_loop.simps [simp del]

definition gen_value_sequence :: "int \<Rightarrow> int \<Rightarrow> int list" where
  "gen_value_sequence start_value seq =
     (if seq = 0 then []
      else
        let count = \<bar>seq\<bar>;
            step = (if seq > 0 then 1 else - 1)
        in gen_loop count step start_value 0)"

section \<open>The command line driver\<close>

text \<open>
  \<open>main\<close> is modelled from the parsed arguments on: \<open>args\<close> is the namespace that
  \<open>parser.parse_args\<close> returns, with \<open>--mode\<close> already normalised by \<open>normalize_mode\<close>
  and the defaults of the parser filled in (\<open>threads\<close> 50, the flags false, the others
  \<open>None\<close>).
\<close>

datatype mode = Decode | EnumFromValue | EnumFromCurrent

record args =
  args_id :: string
  args_mode :: mode
  args_start :: "int option"
  args_seq :: "int option"
  args_threads :: int
  args_displayonly :: bool
  args_outfile :: "string option"
  args_to18 :: bool

text \<open>
  What the run depends on beside its arguments: how the output file behaves (it opens and
  takes every line, or \<open>open\<close> raises, or the write of line number \<open>j\<close> raises, or closing
  raises; each with the text of the exception), the order in which
  \<open>concurrent.futures.as_completed\<close> hands back the submitted futures, and the name
  \<open>default_output_filename\<close> computes from \<open>sys.argv[0]\<close> and the clock.
\<close>

datatype writer_fault = NoFault | OpenFails string | WriteFails nat string | CloseFails string

record environment =
  env_fault :: writer_fault
  env_as_completed ::
    "(error + string \<times> string \<times> int) list \<Rightarrow> (error + string \<times> string \<times> int) list"
  env_default_outfile :: string

text \<open>
  What a run leaves behind: how the process ends (\<open>return\<close> of an exit code, an exception
  that leaves \<open>main\<close> uncaught, or the main thread blocked for ever in \<open>q.put\<close>), the
  lines printed to standard output and to the error stream, and the output file: \<open>None\<close>
  when it was never opened, otherwise its path and the strings written to it after it
  was created or truncated.
\<close>

datatype status = Exit int | Uncaught error | Blocked

record outcome =
  status :: status
  stdout :: "string list"
  stderr :: "string list"
  outfile_written :: "(string \<times> string list) option"

definition py_str_error :: "error \<Rightarrow> string" where
  "py_str_error e = (case e of ValueError m \<Rightarrow> m)"

text \<open>
  The sequential loop \<open>for v in values: sfid_out, _, _ = make_id(prefix7, v, to18=...)\<close>
  followed by the emission of \<open>sfid_out\<close>: the identifiers emitted, in order, and the
  exception that ended the loop early, if any.
\<close>

fun compose_each :: "string \<Rightarrow> bool \<Rightarrow> int list \<Rightarrow> string list \<times> error option" where
  "compose_each prefix7 to18 [] = ([], None)"
| "compose_each prefix7 to18 (v # vs) =
     (case make_id prefix7 v to18 of
        Inl e \<Rightarrow> ([], Some e)
      | Inr (sfid_out, b62, v') \<Rightarrow>
          (let (ids, exc) = compose_each prefix7 to18 vs in (sfid_out # ids, exc)))"

text \<open>
  The parallel loop \<open>for fut in as_completed(futs): sfid_out, _, _ = fut.result()\<close>:
  \<open>fut.result()\<close> raises what the call of \<open>make_id\<close> raised.
\<close>

fun emit_results :: "(error + string \<times> string \<times> int) list \<Rightarrow> string list \<times> error option" where
  "emit_results [] = ([], None)"
| "emit_results (Inl e # rs) = ([], Some e)"
| "emit_results (Inr (sfid_out, b62, v) # rs) =
     (let (ids, exc) = emit_results rs in (sfid_out # ids, exc))"

text \<open>
  The identifiers a sink receives, in the order it receives them: strictly sequential
  when \<open>args.threads <= 1\<close>, otherwise through the thread pool in completion order.
\<close>

definition produce_ids ::
  "environment \<Rightarrow> args \<Rightarrow> string \<Rightarrow> int list \<Rightarrow> string list \<times> error option" where
  "produce_ids env a prefix7 values =
     (if args_threads a \<le> 1 then compose_each prefix7 (args_to18 a) values
      else emit_results
             (env_as_completed env (map (\<lambda>v. make_id prefix7 v (args_to18 a)) values)))"

text \<open>
  The writer thread, given the lines the main thread puts on the queue before the
  \<open>None\<close> that ends it: the file it leaves, the exception it stored in \<open>writer_error\<close>,
  and the number of queue items it took before it ended.
\<close>

definition writer ::
  "writer_fault \<Rightarrow> string \<Rightarrow> string list \<Rightarrow> (string \<times> string list) option \<times> string option \<times> nat" where
  "writer fault outfile items =
     (case fault of
        NoFault \<Rightarrow> (Some (outfile, items), None, length items + 1)
      | OpenFails m \<Rightarrow> (None, Some m, 0)
      | WriteFails j m \<Rightarrow>
          if j < length items then (Some (outfile, take j items), Some m, j + 1)
          else (Some (outfile, items), None, length items + 1)
      | CloseFails m \<Rightarrow> (Some (outfile, items), Some m, length items + 1))"

text \<open>
  The part of \<open>main\<close> after the list \<open>values\<close> is built. The queue holds at most 10000
  items, so once the writer has ended the main thread can put only 10000 more and
  blocks in the next \<open>q.put\<close>.
\<close>

definition main_enumerate :: "environment \<Rightarrow> args \<Rightarrow> string \<Rightarrow> int list \<Rightarrow> outcome" where
  "main_enumerate env a prefix7 values =
     (if values = []
      then \<lparr>status = Exit 3, stdout = [],
            stderr = [''No values generated (sequence may have exceeded bounds).''],
            outfile_written = None\<rparr>
      else if args_displayonly a
      then
        (let (ids, exc) = produce_ids env a prefix7 values
         in case exc of
              Some e \<Rightarrow> \<lparr>status = Uncaught e, stdout = ids, stderr = [], outfile_written = None\<rparr>
            | None \<Rightarrow> \<lparr>status = Exit 0, stdout = ids, stderr = [], outfile_written = None\<rparr>)
      else
        (let outfile =
               (case args_outfile a of
                  None \<Rightarrow> env_default_outfile env
                | Some p \<Rightarrow> if p = [] then env_default_outfile env else p);
             (ids, exc) = produce_ids env a prefix7 values;
             items = map (\<lambda>sfid_out. sfid_out @ [CHR 0x0A]) ids;
             (file, writer_error, taken) = writer (env_fault env) outfile items
         in if taken + 10000 < length items + 1
            then \<lparr>status = Blocked, stdout = [], stderr = [], outfile_written = file\<rparr>
            else
              case exc of
                Some e \<Rightarrow> \<lparr>status = Uncaught e, stdout = [], stderr = [], outfile_written = file\<rparr>
              | None \<Rightarrow>
                  (case writer_error of
                     Some m \<Rightarrow>
                       \<lparr>status = Exit 4, stdout = [],
                        stderr = [''Error writing to file '' @ [CHR 0x27] @ outfile @ [CHR 0x27]
                                  @ '': '' @ m],
                        outfile_written = file\<rparr>
                   | None \<Rightarrow>
                       \<lparr>status = Exit 0, stdout = [], stderr = [], outfile_written = file\<rparr>)))"

definition invalid_input :: "string \<Rightarrow> outcome" where
  "invalid_input message =
     \<lparr>status = Exit 2, stdout = [], stderr = [message], outfile_written = None\<rparr>"

definition main :: "environment \<Rightarrow> args \<Rightarrow> outcome" where
  "main env a =
     (case normalize_to_15 (args_id a) of
        Inl e \<Rightarrow> invalid_input (''Error: '' @ py_str_error e)
      | Inr id15 \<Rightarrow>
          (case split_id_components id15 of
             Inl e \<Rightarrow> invalid_input (''Error: '' @ py_str_error e)
           | Inr (prefix7, counter8) \<Rightarrow>
               (case base62_to_int counter8 of
                  Inl e \<Rightarrow> invalid_input (''Error: '' @ py_str_error e)
                | Inr current_value \<Rightarrow>
                    if args_mode a = Decode
                    then \<lparr>status = Exit 0, stdout = [py_str_int current_value], stderr = [],
                          outfile_written = None\<rparr>
                    else
                      (case args_seq a of
                         None \<Rightarrow>
                           invalid_input
                             ''Error: --seq must be provided and non-zero for enumeration modes.''
                       | Some seq \<Rightarrow>
                           if seq = 0
                           then invalid_input
                                  ''Error: --seq must be provided and non-zero for enumeration modes.''
                           else if args_mode a = EnumFromValue
                           then
                             (case args_start a of
                                None \<Rightarrow>
                                  invalid_input
                                    ''Error: --start must be provided for --mode enum-from-value.''
                              | Some start \<Rightarrow>
                                  if start < 0 \<or> start > MAX_BASE62_8
                                  then invalid_input
                                         (''Error: --start must be between 0 and ''
                                          @ py_str_int MAX_BASE62_8 @ ''.'')
                                  else main_enumerate env a prefix7
                                         (gen_value_sequence start seq))
                           else main_enumerate env a prefix7
                                  (gen_value_sequence current_value seq)))))"

subsection \<open>An example invocation\<close>

text \<open>
  The invocation \<open>-i 001Vc00000PHoN1IAL -m efc --seq 3 --threads 1 --displayonly --to18\<close>,
  in an environment where the output file takes every line; the examples below vary it.
\<close>

definition example_env :: environment where
  "example_env =
     \<lparr>env_fault = NoFault, env_as_completed = (\<lambda>futs. futs),
      env_default_outfile = ''sfidenum-20250101-120000.txt''\<rparr>"

definition example_args :: args where
  "example_args =
     \<lparr>args_id = ''001Vc00000PHoN1IAL'', args_mode = EnumFromCurrent, args_start = None,
      args_seq = Some 3, args_threads = 1, args_displayonly = True, args_outfile = None,
      args_to18 = True\<rparr>"


section \<open>Properties of the Base62 codec\<close>

lemma BASE_eq: "BASE = 62"
  by (simp add: BASE_def ALPHABET_def)

lemma MAX_eq: "MAX_BASE62_8 = 218340105584895"
  by (simp add: MAX_BASE62_8_def BASE_eq)

lemma length_ALPHABET: "length ALPHABET = 62"
  by (simp add: ALPHABET_def)

lemma distinct_ALPHABET: "distinct ALPHABET"
  by (simp add: ALPHABET_def)

lemma find_from_nth:
  "distinct xs \<Longrightarrow> k < length xs \<Longrightarrow> find_from xs (xs ! k) i = i + int k"
proof (induction xs arbitrary: k i)
  case Nil
  then show ?case by simp
next
  case (Cons x xs)
  show ?case
  proof (cases k)
    case 0
    then show ?thesis by simp
  next
    case (Suc j)
    with Cons.prems have "xs ! j \<in> set xs" "x \<notin> set xs" by auto
    then have "x \<noteq> xs ! j" by auto
    with Suc Cons show ?thesis by simp
  qed
qed

lemma py_find_ALPHABET_nth:
  "0 \<le> r \<Longrightarrow> r < 62 \<Longrightarrow> py_find ALPHABET (ALPHABET ! nat r) = r"
  using find_from_nth [OF distinct_ALPHABET, of "nat r" 0]
  by (simp add: py_find_def length_ALPHABET)

lemma decode_loop_append:
  "decode_loop a (s @ t) = (case decode_loop a s of Inl e \<Rightarrow> Inl e | Inr m \<Rightarrow> decode_loop m t)"
  by (induction s arbitrary: a) (simp_all add: Let_def)

lemma decode_loop_digit:
  "0 \<le> r \<Longrightarrow> r < 62 \<Longrightarrow> decode_loop a [ALPHABET ! nat r] = Inr (a * 62 + r)"
  by (simp add: py_find_ALPHABET_nth BASE_eq)

lemma encode_loop_step:
  "0 < n \<Longrightarrow> encode_loop n chars = encode_loop (n div 62) (chars @ [ALPHABET ! nat (n mod 62)])"
  by (subst encode_loop.simps) (simp add: BASE_eq)

lemma encode_loop_stop: "n \<le> 0 \<Longrightarrow> encode_loop n chars = chars"
  by (subst encode_loop.simps) simp

lemma encode_loop_acc: "encode_loop n chars = chars @ encode_loop n []"
proof (induction "nat n" arbitrary: n chars rule: less_induct)
  case less
  show ?case
  proof (cases "0 < n")
    case True
    then have lt: "nat (n div 62) < nat n" by simp
    show ?thesis
      using less.hyps [OF lt, of "chars @ [ALPHABET ! nat (n mod 62)]"]
        less.hyps [OF lt, of "[ALPHABET ! nat (n mod 62)]"]
      by (simp add: encode_loop_step [OF True])
  next
    case False
    then show ?thesis by (simp add: encode_loop_stop)
  qed
qed

lemma decode_rev_encode: "0 \<le> n \<Longrightarrow> decode_loop 0 (rev (encode_loop n [])) = Inr n"
proof (induction "nat n" arbitrary: n rule: less_induct)
  case less
  show ?case
  proof (cases "0 < n")
    case True
    then have lt: "nat (n div 62) < nat n" and nn: "0 \<le> n div 62" by simp_all
    have r: "0 \<le> n mod 62" "n mod 62 < 62" by simp_all
    have "encode_loop n [] = [ALPHABET ! nat (n mod 62)] @ encode_loop (n div 62) []"
      using encode_loop_step [OF True, of "[]"] encode_loop_acc [of "n div 62" "[ALPHABET ! nat (n mod 62)]"]
      by simp
    then have "decode_loop 0 (rev (encode_loop n [])) =
        decode_loop 0 (rev (encode_loop (n div 62) []) @ [ALPHABET ! nat (n mod 62)])"
      by simp
    also have "\<dots> = decode_loop (n div 62) [ALPHABET ! nat (n mod 62)]"
      by (simp only: decode_loop_append less.hyps [OF lt nn] sum.case)
    also have "\<dots> = Inr (n div 62 * 62 + n mod 62)"
      by (rule decode_loop_digit [OF r])
    finally show ?thesis by simp
  next
    case False
    with less.prems have "n = 0" by simp
    then show ?thesis by (simp add: encode_loop_stop)
  qed
qed

lemma py_find_zero: "py_find ALPHABET (CHR ''0'') = 0"
  by (simp add: py_find_def ALPHABET_def)

lemma decode_loop_pad: "decode_loop 0 (replicate k (CHR ''0'') @ s) = decode_loop 0 s"
  by (induction k) (simp_all add: py_find_zero)

lemma encode_loop_cons:
  "0 < n \<Longrightarrow> encode_loop n [] = ALPHABET ! nat (n mod 62) # encode_loop (n div 62) []"
  using encode_loop_step [of n "[]"] encode_loop_acc [of "n div 62" "[ALPHABET ! nat (n mod 62)]"]
  by simp

lemma length_encode_loop:
  "0 \<le> n \<Longrightarrow> n < 62 ^ k \<Longrightarrow> length (encode_loop n []) \<le> k"
proof (induction k arbitrary: n)
  case 0
  then have "n = 0" by simp
  then show ?case by (simp add: encode_loop_stop)
next
  case (Suc k)
  show ?case
  proof (cases "0 < n")
    case True
    have "n div 62 < 62 ^ k" using Suc.prems by simp
    moreover have "0 \<le> n div 62" using True by simp
    ultimately have "length (encode_loop (n div 62) []) \<le> k" by (rule Suc.IH [rotated])
    then show ?thesis by (simp add: encode_loop_cons [OF True])
  next
    case False
    then show ?thesis by (simp add: encode_loop_stop)
  qed
qed

lemma decode_natural: "0 \<le> n \<Longrightarrow> decode_loop 0 (if n = 0 then ''0'' else rev (encode_loop n [])) = Inr n"
  by (simp add: decode_rev_encode py_find_zero)

lemma length_natural:
  "0 \<le> n \<Longrightarrow> n \<le> MAX_BASE62_8 \<Longrightarrow> length (if n = 0 then ''0'' else rev (encode_loop n [])) \<le> 8"
  using length_encode_loop [of n 8] by (simp add: MAX_eq)

text \<open>
  Claim C1. For every integer \<open>n\<close> in \<open>[0, 62^8 - 1]\<close>, \<open>int_to_base62 n 8\<close> is a string
  of exactly 8 characters that \<open>base62_to_int\<close> decodes back to \<open>n\<close>; and for every
  non-negative \<open>n\<close> and every minimum length \<open>k\<close> (so in particular every \<open>k\<close> at least
  the natural digit count of \<open>n\<close>) decoding \<open>int_to_base62 n k\<close> gives \<open>n\<close> again.
\<close>

theorem base62_round_trip:
  assumes "0 \<le> n"
  shows "(\<exists>s. int_to_base62 n k = Inr s \<and> base62_to_int s = Inr n) \<and>
         (n \<le> MAX_BASE62_8 \<longrightarrow>
            (\<exists>s. int_to_base62 n 8 = Inr s \<and> length s = 8 \<and> base62_to_int s = Inr n))"
proof (intro conjI impI)
  show "\<exists>s. int_to_base62 n k = Inr s \<and> base62_to_int s = Inr n"
    using assms decode_natural [OF assms]
    by (simp add: int_to_base62_def base62_to_int_def Let_def decode_loop_pad)
next
  assume "n \<le> MAX_BASE62_8"
  then show "\<exists>s. int_to_base62 n 8 = Inr s \<and> length s = 8 \<and> base62_to_int s = Inr n"
    using assms decode_natural [OF assms] length_natural [OF assms]
    by (auto simp add: int_to_base62_def base62_to_int_def Let_def decode_loop_pad)
qed

theorem base62_round_trip_witness:
  "(0::int) \<le> 366897425 \<and> 366897425 \<le> MAX_BASE62_8 \<and>
   int_to_base62 366897425 8 = Inr ''000OpSmP'' \<and> length ''000OpSmP'' = 8 \<and>
   base62_to_int ''000OpSmP'' = Inr 366897425"
proof -
  have e: "int_to_base62 366897425 8 = Inr ''000OpSmP''" by code_simp
  have d: "base62_to_int ''000OpSmP'' = Inr 366897425" by code_simp
  show ?thesis
    using base62_round_trip [of 366897425 8] e d by (simp add: MAX_eq)
qed

lemma int_to_base62_8:
  assumes "0 \<le> n" "n \<le> MAX_BASE62_8"
  shows "\<exists>s. int_to_base62 n 8 = Inr s \<and> length s = 8 \<and> base62_to_int s = Inr n"
  using assms decode_natural [OF assms(1)] length_natural [OF assms]
  by (auto simp add: int_to_base62_def base62_to_int_def Let_def decode_loop_pad)


section \<open>Properties of the checksum\<close>

text \<open>
  Claim C2. On the documented identifier \<open>001Vc00000PHoN1\<close> the checksum function returns
  \<open>001Vc00000PHoN1IAL\<close>: the three segments of five characters, each reversed, give the
  bit strings \<open>01000\<close>, \<open>00000\<close> and \<open>01011\<close> from their uppercase positions, that is the
  indices 8, 0 and 11 of the table \<open>A-Z\<close>, \<open>0-5\<close>, and so the suffix \<open>IAL\<close>.
\<close>

theorem id15_to_18_known_vector:
  "id15_to_18 ''001Vc00000PHoN1'' = Inr ''001Vc00000PHoN1IAL''"
  by (simp add: id15_to_18_def py_int_base2_def char_isupper_def MAPPING_def)

lemma int_base2_from_bounds:
  "0 \<le> acc \<Longrightarrow> 0 \<le> int_base2_from acc cs \<and> int_base2_from acc cs < (acc + 1) * 2 ^ length cs"
proof (induction cs arbitrary: acc)
  case Nil
  then show ?case by simp
next
  case (Cons c cs)
  define d :: int where "d = (if c = CHR ''1'' then 1 else 0)"
  have d: "0 \<le> d" "d \<le> 1" by (simp_all add: d_def)
  have step: "int_base2_from acc (c # cs) = int_base2_from (2 * acc + d) cs"
    by (simp add: d_def)
  have a: "0 \<le> 2 * acc + d" using Cons.prems d by simp
  have "int_base2_from (2 * acc + d) cs < (2 * acc + d + 1) * 2 ^ length cs"
    using Cons.IH [OF a] by simp
  also have "\<dots> \<le> (2 * (acc + 1)) * 2 ^ length cs"
    using d by (intro mult_right_mono) simp_all
  also have "\<dots> = (acc + 1) * 2 ^ length (c # cs)" by simp
  finally show ?case using Cons.IH [OF a] by (simp only: step)
qed

lemma suffix_char_in_MAPPING:
  "length seg = 5 \<Longrightarrow>
   MAPPING ! nat (py_int_base2 (map (\<lambda>c. if char_isupper c then CHR ''1'' else CHR ''0'') seg))
     \<in> set MAPPING"
proof -
  assume "length seg = 5"
  then have "0 \<le> py_int_base2 (map (\<lambda>c. if char_isupper c then CHR ''1'' else CHR ''0'') seg)"
    "py_int_base2 (map (\<lambda>c. if char_isupper c then CHR ''1'' else CHR ''0'') seg) < 32"
    using int_base2_from_bounds [of 0 "map (\<lambda>c. if char_isupper c then CHR ''1'' else CHR ''0'') seg"]
    by (simp_all add: py_int_base2_def)
  then have "nat (py_int_base2 (map (\<lambda>c. if char_isupper c then CHR ''1'' else CHR ''0'') seg)) < length MAPPING"
    by (simp add: MAPPING_def)
  then show ?thesis by (rule nth_mem)
qed

lemma id15_to_18_len15:
  assumes "length id15 = 15"
  shows "\<exists>suffix. length suffix = 3 \<and> set suffix \<subseteq> set MAPPING \<and> id15_to_18 id15 = Inr (id15 @ suffix)"
  using assms 
    suffix_char_in_MAPPING [of "rev (take 5 id15)"]
    suffix_char_in_MAPPING [of "rev (take 5 (drop 5 id15))"]
    suffix_char_in_MAPPING [of "rev (take 5 (drop 10 id15))"]
  by (simp add: id15_to_18_def Let_def rev_map)


section \<open>Properties of the sequence generator\<close>

lemma gen_loop_step:
  "produced < count \<Longrightarrow> 0 \<le> current \<Longrightarrow> current \<le> MAX_BASE62_8 \<Longrightarrow>
   gen_loop count step current produced = current # gen_loop count step (current + step) (produced + 1)"
  by (subst gen_loop.simps) simp

lemma gen_loop_out:
  "\<not> (0 \<le> current \<and> current \<le> MAX_BASE62_8) \<Longrightarrow> gen_loop count step current produced = []"
  by (subst gen_loop.simps) auto

lemma gen_loop_done: "\<not> produced < count \<Longrightarrow> gen_loop count step current produced = []"
  by (subst gen_loop.simps) simp

lemma gen_loop_takeWhile:
  "gen_loop count step current produced =
   takeWhile (\<lambda>v. 0 \<le> v \<and> v \<le> MAX_BASE62_8)
     (map (\<lambda>i. current + step * int i) [0..<nat (count - produced)])"
proof (induction "nat (count - produced)" arbitrary: current produced)
  case 0
  then have "\<not> produced < count" by simp
  with 0 show ?case by (simp add: gen_loop_done)
next
  case (Suc k)
  then have lt: "produced < count" and k: "k = nat (count - (produced + 1))" by simp_all
  have eq: "nat (count - produced) = Suc k" using Suc.hyps(2) by simp
  show ?case
  proof (cases "0 \<le> current \<and> current \<le> MAX_BASE62_8")
    case True
    have "gen_loop count step current produced =
          current # gen_loop count step (current + step) (produced + 1)"
      using lt True by (simp add: gen_loop_step)
    also have "gen_loop count step (current + step) (produced + 1) =
        takeWhile (\<lambda>v. 0 \<le> v \<and> v \<le> MAX_BASE62_8)
          (map (\<lambda>i. (current + step) + step * int i) [0..<k])"
      using Suc.hyps(1) [OF k, of "current + step"] k by simp
    finally show ?thesis
      using True by (simp add: eq map_upt_Suc algebra_simps del: upt_Suc)
  next
    case False
    then show ?thesis
      by (simp add: gen_loop_out eq map_upt_Suc del: upt_Suc)
  qed
qed

text \<open>
  Claim C3. The generator yields the values \<open>start_value\<close>, \<open>start_value + step\<close>, ... with
  \<open>step\<close> \<open>+1\<close> for a positive and \<open>-1\<close> for a negative \<open>seq\<close>, up to the first of them outside
  \<open>[0, 62^8 - 1]\<close>, where it stops, and never more than \<open>|seq|\<close> of them: its list of values
  is the longest in-range prefix of the \<open>|seq|\<close> requested values. For \<open>seq = 0\<close> it yields
  nothing; from \<open>62^8 - 2\<close> with \<open>seq = 5\<close> it yields the two values \<open>62^8 - 2\<close>, \<open>62^8 - 1\<close>;
  from 100 with \<open>seq = -10\<close> it yields the ten values 100 down to 91.
\<close>

theorem gen_value_sequence_spec:
  "gen_value_sequence start_value seq =
     takeWhile (\<lambda>v. 0 \<le> v \<and> v \<le> MAX_BASE62_8)
       (map (\<lambda>i. start_value + (if seq > 0 then 1 else - 1) * int i) [0..<nat \<bar>seq\<bar>])
   \<and> length (gen_value_sequence start_value seq) \<le> nat \<bar>seq\<bar>
   \<and> gen_value_sequence start_value 0 = []
   \<and> gen_value_sequence (62 ^ 8 - 2) 5 = [62 ^ 8 - 2, 62 ^ 8 - 1]
   \<and> gen_value_sequence 100 (- 10) = [100, 99, 98, 97, 96, 95, 94, 93, 92, 91]"
proof (intro conjI)
  show c: "gen_value_sequence start_value seq =
     takeWhile (\<lambda>v. 0 \<le> v \<and> v \<le> MAX_BASE62_8)
       (map (\<lambda>i. start_value + (if seq > 0 then 1 else - 1) * int i) [0..<nat \<bar>seq\<bar>])"
    by (simp add: gen_value_sequence_def Let_def gen_loop_takeWhile)
  show "length (gen_value_sequence start_value seq) \<le> nat \<bar>seq\<bar>"
    unfolding c by (rule order_trans [OF length_takeWhile_le]) simp
  show "gen_value_sequence start_value 0 = []"
    by (simp add: gen_value_sequence_def)
  show "gen_value_sequence (62 ^ 8 - 2) 5 = [62 ^ 8 - 2, 62 ^ 8 - 1]"
    by code_simp
  show "gen_value_sequence 100 (- 10) = [100, 99, 98, 97, 96, 95, 94, 93, 92, 91]"
    by code_simp
qed

section \<open>Properties of the composer\<close>

lemma clamp_record_value_range:
  "0 \<le> clamp_record_value v \<and> clamp_record_value v \<le> MAX_BASE62_8"
  by (simp add: clamp_record_value_def MAX_eq)

lemma clamp_record_value_cases:
  "clamp_record_value v = (if v < 0 then 0 else if MAX_BASE62_8 < v then MAX_BASE62_8 else v)"
  by (simp add: clamp_record_value_def MAX_eq)

text \<open>
  Claim C5. For every integer \<open>v\<close> (negative, in range or above \<open>62^8 - 1\<close>) and every prefix
  of 7 characters, \<open>make_id\<close> returns without an exception: the value is clamped into
  \<open>[0, 62^8 - 1]\<close>, the counter string returned is the 8-character Base62 encoding of the
  clamped value, and the identifier returned is the prefix followed by the counter
  string, followed by the 3-character checksum suffix exactly when \<open>to18\<close> is set.
\<close>

theorem make_id_clamps:
  assumes "length prefix7 = 7"
  shows "\<exists>b62 suffix.
           int_to_base62 (clamp_record_value v) 8 = Inr b62 \<and> length b62 = 8 \<and>
           0 \<le> clamp_record_value v \<and> clamp_record_value v \<le> MAX_BASE62_8 \<and>
           clamp_record_value v = (if v < 0 then 0 else if MAX_BASE62_8 < v then MAX_BASE62_8 else v) \<and>
           id15_to_18 (prefix7 @ b62) = Inr (prefix7 @ b62 @ suffix) \<and> length suffix = 3 \<and>
           make_id prefix7 v to18 =
             Inr (if to18 then prefix7 @ b62 @ suffix else prefix7 @ b62, b62, clamp_record_value v)"
proof -
  obtain b62 where b: "int_to_base62 (clamp_record_value v) 8 = Inr b62" "length b62 = 8"
    using int_to_base62_8 clamp_record_value_range by blast
  with assms have "length (prefix7 @ b62) = 15" by simp
  then obtain suffix where s: "length suffix = 3" "id15_to_18 (prefix7 @ b62) = Inr (prefix7 @ b62 @ suffix)"
    using id15_to_18_len15 [of "prefix7 @ b62"] by auto
  have "make_id prefix7 v to18 =
      Inr (if to18 then prefix7 @ b62 @ suffix else prefix7 @ b62, b62, clamp_record_value v)"
    by (simp add: make_id_def Let_def b s)
  with b s clamp_record_value_range clamp_record_value_cases show ?thesis by blast
qed

theorem make_id_clamps_witness:
  "length ''001Vc00'' = 7 \<and>
   clamp_record_value (- 5) = 0 \<and> int_to_base62 0 8 = Inr ''00000000'' \<and>
   make_id ''001Vc00'' (- 5) True = Inr (''001Vc0000000000IAA'', ''00000000'', 0) \<and>
   make_id ''001Vc00'' (62 ^ 8 + 7) False = Inr (''001Vc00zzzzzzzz'', ''zzzzzzzz'', 62 ^ 8 - 1)"
proof -
  have 1: "make_id ''001Vc00'' (- 5) True = Inr (''001Vc0000000000IAA'', ''00000000'', 0)"
    by code_simp
  have 2: "make_id ''001Vc00'' (62 ^ 8 + 7) False = Inr (''001Vc00zzzzzzzz'', ''zzzzzzzz'', 62 ^ 8 - 1)"
    by code_simp
  have 3: "int_to_base62 0 8 = Inr ''00000000''" by code_simp
  show ?thesis
    using make_id_clamps [of "''001Vc00''" "- 5" True] 1 2 3
    by (simp add: clamp_record_value_def MAX_eq)
qed

section \<open>Properties of the driver\<close>

subsection \<open>Validation of the identifier\<close>

lemma ascii_alnum_iff:
  "(of_char c :: nat) < 128 \<Longrightarrow> char_isalnum c \<longleftrightarrow> c \<in> set ALPHABET"
proof -
  assume a: "(of_char c :: nat) < 128"
  have "c \<in> set ALPHABET \<longleftrightarrow> (of_char c :: nat) \<in> of_char ` set ALPHABET"
    by (auto simp: inj_image_mem_iff)
  also have "\<dots> \<longleftrightarrow> char_isalnum c"
    using a unfolding char_isalnum_def ALPHABET_def Let_def
    by simp presburger
  finally show ?thesis by simp
qed

lemma ALPHABET_alnum: "c \<in> set ALPHABET \<Longrightarrow> char_isalnum c"
  by (auto simp: ALPHABET_def char_isalnum_def)

lemma ALPHABET_not_space: "c \<in> set ALPHABET \<Longrightarrow> \<not> char_isspace c"
  by (auto simp: ALPHABET_def char_isspace_def)

lemma py_strip_id:
  "list_all (\<lambda>c. \<not> char_isspace c) s \<Longrightarrow> py_strip s = s"
proof -
  assume a: "list_all (\<lambda>c. \<not> char_isspace c) s"
  then have "dropWhile char_isspace s = s"
    by (cases s) simp_all
  moreover from a have "dropWhile char_isspace (rev s) = rev s"
    by (cases s rule: rev_cases) simp_all
  ultimately show ?thesis by (simp add: py_strip_def)
qed

lemma normalize_to_15_length: "normalize_to_15 s = Inr id15 \<Longrightarrow> length id15 = 15"
  by (auto simp: normalize_to_15_def Let_def split: if_splits)

lemma normalize_to_15_Inr:
  "normalize_to_15 s = Inr id15 \<Longrightarrow>
   length id15 = 15 \<and> py_isalnum id15 \<and> id15 = take 15 (py_strip s) \<and>
   (length (py_strip s) = 15 \<or> length (py_strip s) = 18)"
  by (auto simp: normalize_to_15_def Let_def split: if_splits)

lemma normalize_to_15_accepts_iff:
  "(\<exists>id15. normalize_to_15 s = Inr id15) \<longleftrightarrow>
   (length (py_strip s) = 15 \<or> length (py_strip s) = 18) \<and>
   list_all char_isalnum (take 15 (py_strip s))"
proof -
  have "py_strip s \<noteq> [] \<Longrightarrow> s \<noteq> []" by (auto simp: py_strip_def)
  then show ?thesis
    by (auto simp: normalize_to_15_def Let_def py_isalnum_def)
qed

lemma split_id_components_15:
  "length id15 = 15 \<Longrightarrow> split_id_components id15 = Inr (take 7 id15, drop 7 id15)"
  by (simp add: split_id_components_def)

lemma main_invalid_id:
  "normalize_to_15 (args_id a) = Inl e \<Longrightarrow>
   main env a = invalid_input (''Error: '' @ py_str_error e)"
  by (simp add: main_def)

lemma main_invalid_counter:
  "normalize_to_15 (args_id a) = Inr id15 \<Longrightarrow> base62_to_int (drop 7 id15) = Inl e \<Longrightarrow>
   main env a = invalid_input (''Error: '' @ py_str_error e)"
  by (frule normalize_to_15_length) (simp add: main_def split_id_components_15)

lemma main_decode:
  "normalize_to_15 (args_id a) = Inr id15 \<Longrightarrow> base62_to_int (drop 7 id15) = Inr n \<Longrightarrow>
   args_mode a = Decode \<Longrightarrow>
   main env a = \<lparr>status = Exit 0, stdout = [py_str_int n], stderr = [], outfile_written = None\<rparr>"
  by (frule normalize_to_15_length) (simp add: main_def split_id_components_15)

lemma main_enum:
  "normalize_to_15 (args_id a) = Inr id15 \<Longrightarrow> base62_to_int (drop 7 id15) = Inr cur \<Longrightarrow>
   args_mode a \<noteq> Decode \<Longrightarrow>
   main env a =
     (case args_seq a of
        None \<Rightarrow> invalid_input ''Error: --seq must be provided and non-zero for enumeration modes.''
      | Some seq \<Rightarrow>
          if seq = 0
          then invalid_input ''Error: --seq must be provided and non-zero for enumeration modes.''
          else if args_mode a = EnumFromValue
          then
            (case args_start a of
               None \<Rightarrow> invalid_input ''Error: --start must be provided for --mode enum-from-value.''
             | Some start \<Rightarrow>
                 if start < 0 \<or> start > MAX_BASE62_8
                 then invalid_input
                        (''Error: --start must be between 0 and '' @ py_str_int MAX_BASE62_8 @ ''.'')
                 else main_enumerate env a (take 7 id15) (gen_value_sequence start seq))
          else main_enumerate env a (take 7 id15) (gen_value_sequence cur seq))"
  by (frule normalize_to_15_length) (simp add: main_def split_id_components_15)

subsection \<open>The decoded counter is in range\<close>

lemma find_from_range:
  "find_from xs ch i = - 1 \<or> (i \<le> find_from xs ch i \<and> find_from xs ch i < i + int (length xs))"
proof (induction xs arbitrary: i)
  case Nil
  then show ?case by simp
next
  case (Cons x xs)
  from Cons [of "i + 1"] show ?case by auto
qed

lemma find_from_mem: "ch \<in> set xs \<Longrightarrow> 0 \<le> i \<Longrightarrow> find_from xs ch i \<noteq> - 1"
proof (induction xs arbitrary: i)
  case Nil
  then show ?case by simp
next
  case (Cons x xs)
  from Cons.IH [of "i + 1"] Cons.prems show ?case by auto
qed

lemma py_find_ALPHABET_range:
  "py_find ALPHABET ch \<noteq> - 1 \<Longrightarrow> 0 \<le> py_find ALPHABET ch \<and> py_find ALPHABET ch < 62"
  using find_from_range [of ALPHABET ch 0] by (simp add: py_find_def length_ALPHABET)

lemma decode_loop_bounds:
  "0 \<le> acc \<Longrightarrow> decode_loop acc s = Inr n \<Longrightarrow> 0 \<le> n \<and> n < (acc + 1) * 62 ^ length s"
proof (induction s arbitrary: acc)
  case Nil
  then show ?case by simp
next
  case (Cons ch s)
  define i where "i = py_find ALPHABET ch"
  from Cons.prems(2) have ne: "i \<noteq> - 1" and rest: "decode_loop (acc * 62 + i) s = Inr n"
    by (simp_all add: i_def Let_def BASE_eq split: if_splits)
  from ne have i: "0 \<le> i" "i < 62"
    using py_find_ALPHABET_range [of ch] by (simp_all add: i_def)
  have a: "0 \<le> acc * 62 + i" using Cons.prems(1) i by simp
  have "n < (acc * 62 + i + 1) * 62 ^ length s"
    using Cons.IH [OF a rest] by simp
  also have "\<dots> \<le> ((acc + 1) * 62) * 62 ^ length s"
    using i by (intro mult_right_mono) simp_all
  also have "\<dots> = (acc + 1) * 62 ^ length (ch # s)" by simp
  finally show ?case using Cons.IH [OF a rest] by simp
qed

lemma base62_to_int_8_range:
  "length s = 8 \<Longrightarrow> base62_to_int s = Inr n \<Longrightarrow> 0 \<le> n \<and> n \<le> MAX_BASE62_8"
  using decode_loop_bounds [of 0 s n] by (simp add: base62_to_int_def MAX_eq)

lemma decode_loop_ALPHABET:
  "list_all (\<lambda>c. c \<in> set ALPHABET) s \<Longrightarrow> \<exists>n. decode_loop acc s = Inr n"
proof (induction s arbitrary: acc)
  case Nil
  then show ?case by simp
next
  case (Cons ch s)
  then have "py_find ALPHABET ch \<noteq> - 1"
    using find_from_mem [of ch ALPHABET 0] by (simp add: py_find_def)
  with Cons show ?case by (simp add: Let_def)
qed

lemma normalized_counter_range:
  "normalize_to_15 s = Inr id15 \<Longrightarrow> base62_to_int (drop 7 id15) = Inr n \<Longrightarrow>
   0 \<le> n \<and> n \<le> MAX_BASE62_8"
  by (frule normalize_to_15_length) (rule base62_to_int_8_range, simp_all)

subsection \<open>Decode mode and the checks of the arguments\<close>

lemma invalid_input_fields:
  "status (invalid_input m) = Exit 2" "stdout (invalid_input m) = []"
  "stderr (invalid_input m) = [m]" "outfile_written (invalid_input m) = None"
  by (simp_all add: invalid_input_def)

lemma normalize_to_15_ALPHABET:
  assumes "length s = 15 \<or> length s = 18" "list_all (\<lambda>c. c \<in> set ALPHABET) s"
  shows "normalize_to_15 s = Inr (take 15 s)"
proof -
  from assms(2) have "list_all (\<lambda>c. \<not> char_isspace c) s" "list_all char_isalnum s"
    by (auto simp: list_all_iff ALPHABET_not_space ALPHABET_alnum)
  then have "py_strip s = s" "list_all char_isalnum (take 15 s)"
    by (auto simp: py_strip_id list_all_iff dest: in_set_takeD)
  with assms(1) show ?thesis
    by (auto simp: normalize_to_15_def Let_def py_isalnum_def)
qed

text \<open>
  Claim C7. For every valid identifier (15 or 18 characters, each of them one of
  \<open>0-9\<close>, \<open>A-Z\<close>, \<open>a-z\<close>) decode mode prints exactly one line, the decimal value that
  \<open>base62_to_int\<close> gives for the 8 characters after the first 7, prints nothing on the
  error stream, opens no output file and returns the exit code 0. The outcome does not
  depend on the environment or on any other argument: the sequence generator and
  \<open>make_id\<close> have no part in it.
\<close>

theorem decode_mode_output:
  assumes "args_mode a = Decode"
    and "length (args_id a) = 15 \<or> length (args_id a) = 18"
    and "list_all (\<lambda>c. c \<in> set ALPHABET) (args_id a)"
  shows "\<exists>n. base62_to_int (take 8 (drop 7 (args_id a))) = Inr n \<and> 0 \<le> n \<and> n \<le> MAX_BASE62_8 \<and>
             main env a =
               \<lparr>status = Exit 0, stdout = [py_str_int n], stderr = [], outfile_written = None\<rparr>"
proof -
  have norm: "normalize_to_15 (args_id a) = Inr (take 15 (args_id a))"
    using assms(2,3) by (rule normalize_to_15_ALPHABET)
  have cnt: "drop 7 (take 15 (args_id a)) = take 8 (drop 7 (args_id a))"
    by (simp add: drop_take)
  have "list_all (\<lambda>c. c \<in> set ALPHABET) (take 8 (drop 7 (args_id a)))"
    using assms(3) by (auto simp: list_all_iff dest: in_set_takeD in_set_dropD)
  then obtain n where n: "base62_to_int (take 8 (drop 7 (args_id a))) = Inr n"
    using decode_loop_ALPHABET [of "take 8 (drop 7 (args_id a))" 0] by (auto simp: base62_to_int_def)
  have "0 \<le> n \<and> n \<le> MAX_BASE62_8"
    using normalized_counter_range [OF norm] n cnt by simp
  moreover have "main env a =
      \<lparr>status = Exit 0, stdout = [py_str_int n], stderr = [], outfile_written = None\<rparr>"
    using main_decode [OF norm _ assms(1)] n cnt by simp
  ultimately show ?thesis using n by blast
qed

theorem decode_mode_output_witness:
  "args_mode (example_args\<lparr>args_mode := Decode\<rparr>) = Decode \<and>
   length (args_id (example_args\<lparr>args_mode := Decode\<rparr>)) = 18 \<and>
   list_all (\<lambda>c. c \<in> set ALPHABET) (args_id (example_args\<lparr>args_mode := Decode\<rparr>)) \<and>
   base62_to_int ''000PHoN1'' = Inr 373653603 \<and>
   main example_env (example_args\<lparr>args_mode := Decode\<rparr>) =
     \<lparr>status = Exit 0, stdout = [''373653603''], stderr = [], outfile_written = None\<rparr>"
proof -
  have d: "base62_to_int ''000PHoN1'' = Inr 373653603" by code_simp
  have s: "py_str_int 373653603 = ''373653603''" by code_simp
  have l: "list_all (\<lambda>c. c \<in> set ALPHABET) ''001Vc00000PHoN1IAL''"
    by (simp add: ALPHABET_def)
  show ?thesis
    using decode_mode_output [of "example_args\<lparr>args_mode := Decode\<rparr>" example_env] d s l
    by (simp add: example_args_def)
qed

text \<open>
  Claim C9. When the mode is \<open>enum-from-value\<close> and \<open>--start\<close> is below 0 or above
  \<open>62^8 - 1\<close>, \<open>main\<close> returns the exit code 2 with one diagnostic on the error stream,
  nothing on standard output and no output file opened: nothing is generated, composed
  or written.
\<close>

theorem start_out_of_range_rejected:
  assumes "args_mode a = EnumFromValue" and "args_start a = Some start"
    and "start < 0 \<or> MAX_BASE62_8 < start"
  shows "status (main env a) = Exit 2 \<and> stdout (main env a) = [] \<and>
         length (stderr (main env a)) = 1 \<and> outfile_written (main env a) = None"
proof (cases "normalize_to_15 (args_id a)")
  case (Inl e)
  then show ?thesis by (simp add: main_invalid_id invalid_input_fields)
next
  case (Inr id15)
  show ?thesis
  proof (cases "base62_to_int (drop 7 id15)")
    case (Inl e)
    with Inr show ?thesis by (simp add: main_invalid_counter invalid_input_fields)
  next
    case cur: (Inr cur)
    from assms(1) have "args_mode a \<noteq> Decode" by simp
    from main_enum [OF Inr cur this] assms show ?thesis
      by (simp add: invalid_input_fields split: option.split)
  qed
qed

theorem start_out_of_range_rejected_witness:
  "args_mode (example_args\<lparr>args_mode := EnumFromValue, args_start := Some (- 1)\<rparr>) = EnumFromValue \<and>
   args_start (example_args\<lparr>args_mode := EnumFromValue, args_start := Some (- 1)\<rparr>) = Some (- 1) \<and>
   (- 1 :: int) < 0 \<and>
   main example_env (example_args\<lparr>args_mode := EnumFromValue, args_start := Some (- 1)\<rparr>) =
     \<lparr>status = Exit 2, stdout = [],
      stderr = [''Error: --start must be between 0 and 218340105584895.''],
      outfile_written = None\<rparr>"
proof -
  have m: "main example_env (example_args\<lparr>args_mode := EnumFromValue, args_start := Some (- 1)\<rparr>) =
     \<lparr>status = Exit 2, stdout = [],
      stderr = [''Error: --start must be between 0 and 218340105584895.''],
      outfile_written = None\<rparr>"
    by code_simp
  show ?thesis
    using start_out_of_range_rejected
      [of "example_args\<lparr>args_mode := EnumFromValue, args_start := Some (- 1)\<rparr>" "- 1" example_env] m
    by (simp add: example_args_def)
qed

subsection \<open>The empty sequence\<close>

lemma gen_value_sequence_nonempty:
  assumes "0 \<le> s" "s \<le> MAX_BASE62_8" "q \<noteq> 0"
  shows "gen_value_sequence s q \<noteq> []"
proof -
  have "0 < (abs q)" using assms(3) by simp
  then have "gen_loop (abs q) (if q > 0 then 1 else - 1) s 0 =
      s # gen_loop (abs q) (if q > 0 then 1 else - 1) (s + (if q > 0 then 1 else - 1)) (0 + 1)"
    using assms(1,2) by (rule gen_loop_step)
  then show ?thesis using assms(3) by (simp add: gen_value_sequence_def Let_def)
qed

lemma main_enumerate_empty:
  "main_enumerate env a prefix7 [] =
     \<lparr>status = Exit 3, stdout = [],
      stderr = [''No values generated (sequence may have exceeded bounds).''],
      outfile_written = None\<rparr>"
  by (simp add: main_enumerate_def)

lemma main_enumerate_status:
  "values \<noteq> [] \<Longrightarrow> status (main_enumerate env a prefix7 values) \<noteq> Exit 3"
  by (simp add: main_enumerate_def Let_def split: prod.split option.split)

lemma main_status_not_3: "status (main env a) \<noteq> Exit 3"
proof (cases "normalize_to_15 (args_id a)")
  case (Inl e)
  then show ?thesis by (simp add: main_invalid_id invalid_input_fields)
next
  case (Inr id15)
  show ?thesis
  proof (cases "base62_to_int (drop 7 id15)")
    case (Inl e)
    with Inr show ?thesis by (simp add: main_invalid_counter invalid_input_fields)
  next
    case cur: (Inr cur)
    have rng: "0 \<le> cur" "cur \<le> MAX_BASE62_8"
      using normalized_counter_range [OF Inr cur] by simp_all
    show ?thesis
    proof (cases "args_mode a = Decode")
      case True
      with main_decode [OF Inr cur] show ?thesis by simp
    next
      case False
      show ?thesis
        unfolding main_enum [OF Inr cur False]
        using rng
        by (auto simp: invalid_input_fields main_enumerate_status gen_value_sequence_nonempty
            split: option.split)
    qed
  qed
qed

text \<open>
  Claim C10. No invocation ends in the empty-sequence branch: \<open>main\<close> never returns the
  exit code 3. The counter decoded from a normalised identifier has 8 characters and so
  lies in \<open>[0, 62^8 - 1]\<close>, a \<open>--start\<close> that passed its check lies there too, \<open>--seq\<close> is
  not zero when the generator is reached, and from a start value in range with a
  non-zero \<open>seq\<close> the generator yields at least the start value.
\<close>

theorem exit_3_unreachable:
  "status (main env a) \<noteq> Exit 3 \<and>
   (\<forall>id15 n. normalize_to_15 (args_id a) = Inr id15 \<longrightarrow> base62_to_int (drop 7 id15) = Inr n \<longrightarrow>
      length (drop 7 id15) = 8 \<and> 0 \<le> n \<and> n \<le> MAX_BASE62_8) \<and>
   (\<forall>start_value seq. 0 \<le> start_value \<longrightarrow> start_value \<le> MAX_BASE62_8 \<longrightarrow> seq \<noteq> 0 \<longrightarrow>
      gen_value_sequence start_value seq \<noteq> [])"
  using main_status_not_3 normalized_counter_range gen_value_sequence_nonempty
    normalize_to_15_length
  by auto

theorem exit_3_unreachable_witness:
  "normalize_to_15 (args_id example_args) = Inr ''001Vc00000PHoN1'' \<and>
   base62_to_int (drop 7 ''001Vc00000PHoN1'') = Inr 373653603 \<and>
   (0 :: int) \<le> 373653603 \<and> 373653603 \<le> MAX_BASE62_8 \<and>
   gen_value_sequence 373653603 3 = [373653603, 373653604, 373653605] \<and>
   status (main example_env example_args) = Exit 0"
proof -
  have n: "normalize_to_15 (args_id example_args) = Inr ''001Vc00000PHoN1''" by code_simp
  have d: "base62_to_int (drop 7 ''001Vc00000PHoN1'') = Inr 373653603" by code_simp
  have g: "gen_value_sequence 373653603 3 = [373653603, 373653604, 373653605]" by code_simp
  have m: "status (main example_env example_args) = Exit 0" by code_simp
  show ?thesis
    using exit_3_unreachable [of example_env example_args] n d g m
    by (simp add: MAX_eq)
qed

text \<open>
  Claim C4 says that an enumeration whose generator yields no value, in particular one
  with \<open>seq = 0\<close>, exits with the status 3. The invocation
  \<open>-i 001Vc00000PHoN1IAL -m efc --seq 0 --threads 1 --displayonly --to18\<close> shows otherwise:
  the generator would yield nothing for \<open>seq = 0\<close>, but \<open>main\<close> returns 2, not 3.
\<close>

theorem zero_seq_exit_code_counterexample:
  "args_mode (example_args\<lparr>args_seq := Some 0\<rparr>) = EnumFromCurrent \<and>
   args_seq (example_args\<lparr>args_seq := Some 0\<rparr>) = Some 0 \<and>
   gen_value_sequence 0 0 = [] \<and>
   gen_value_sequence 373653603 0 = [] \<and>
   status (main example_env (example_args\<lparr>args_seq := Some 0\<rparr>)) = Exit 2 \<and>
   status (main example_env (example_args\<lparr>args_seq := Some 0\<rparr>)) \<noteq> Exit 3"
proof -
  have m: "main example_env (example_args\<lparr>args_seq := Some 0\<rparr>) =
      invalid_input ''Error: --seq must be provided and non-zero for enumeration modes.''"
    by code_simp
  have s: "status (main example_env (example_args\<lparr>args_seq := Some 0\<rparr>)) = Exit 2"
    by (simp only: m invalid_input_fields)
  have a: "args_mode (example_args\<lparr>args_seq := Some 0\<rparr>) = EnumFromCurrent"
    "args_seq (example_args\<lparr>args_seq := Some 0\<rparr>) = Some 0"
    by (simp_all add: example_args_def)
  show ?thesis
    by (simp add: s a gen_value_sequence_def)
qed

text \<open>
  Claim C4, as the code has it. The generator yields nothing for \<open>seq = 0\<close>, but an
  enumeration with \<open>--seq 0\<close> never reaches it: \<open>main\<close> rejects it as invalid input with
  the exit code 2 and one diagnostic on the error stream, prints no identifier and
  opens no output file. The exit code 3 belongs to the step after generation: handed an
  empty list of values it returns 3 with its diagnostic on the error stream, prints no
  identifier and opens no output file.
\<close>

theorem zero_seq_rejected:
  "gen_value_sequence start_value 0 = [] \<and>
   (args_mode a \<noteq> Decode \<longrightarrow> args_seq a = Some 0 \<longrightarrow>
      status (main env a) = Exit 2 \<and> stdout (main env a) = [] \<and>
      length (stderr (main env a)) = 1 \<and> outfile_written (main env a) = None) \<and>
   main_enumerate env a prefix7 [] =
     \<lparr>status = Exit 3, stdout = [],
      stderr = [''No values generated (sequence may have exceeded bounds).''],
      outfile_written = None\<rparr>"
proof -
  have g: "gen_value_sequence start_value 0 = []" by (simp add: gen_value_sequence_def)
  have r: "status (main env a) = Exit 2 \<and> stdout (main env a) = [] \<and>
      length (stderr (main env a)) = 1 \<and> outfile_written (main env a) = None"
    if m: "args_mode a \<noteq> Decode" and q: "args_seq a = Some 0"
  proof (cases "normalize_to_15 (args_id a)")
    case (Inl e)
    then show ?thesis by (simp add: main_invalid_id invalid_input_fields)
  next
    case (Inr id15)
    show ?thesis
    proof (cases "base62_to_int (drop 7 id15)")
      case (Inl e)
      with Inr show ?thesis by (simp add: main_invalid_counter invalid_input_fields)
    next
      case cur: (Inr cur)
      from main_enum [OF Inr cur m] q show ?thesis by (simp add: invalid_input_fields)
    qed
  qed
  from g r main_enumerate_empty [of env a prefix7] show ?thesis by blast
qed

theorem zero_seq_rejected_witness:
  "gen_value_sequence 0 0 = [] \<and>
   args_mode (example_args\<lparr>args_seq := Some 0, args_displayonly := False\<rparr>) \<noteq> Decode \<and>
   args_seq (example_args\<lparr>args_seq := Some 0, args_displayonly := False\<rparr>) = Some 0 \<and>
   main example_env (example_args\<lparr>args_seq := Some 0, args_displayonly := False\<rparr>) =
     \<lparr>status = Exit 2, stdout = [],
      stderr = [''Error: --seq must be provided and non-zero for enumeration modes.''],
      outfile_written = None\<rparr>"
proof -
  have m: "main example_env (example_args\<lparr>args_seq := Some 0, args_displayonly := False\<rparr>) =
     \<lparr>status = Exit 2, stdout = [],
      stderr = [''Error: --seq must be provided and non-zero for enumeration modes.''],
      outfile_written = None\<rparr>"
    by code_simp
  show ?thesis
    using zero_seq_rejected
      [of 0 "example_args\<lparr>args_seq := Some 0, args_displayonly := False\<rparr>" example_env "[]"] m
    by (simp add: example_args_def)
qed

subsection \<open>Which identifiers are accepted\<close>

lemma set_py_strip: "x \<in> set (py_strip s) \<Longrightarrow> x \<in> set s"
proof -
  assume "x \<in> set (py_strip s)"
  then have "x \<in> set (dropWhile char_isspace (rev (dropWhile char_isspace s)))"
    by (simp add: py_strip_def)
  then have "x \<in> set (rev (dropWhile char_isspace s))" by (rule set_dropWhileD)
  then have "x \<in> set (dropWhile char_isspace s)" by simp
  then show ?thesis by (rule set_dropWhileD)
qed

text \<open>
  Claim C6 says that an identifier is accepted if and only if it has exactly 15 or 18
  characters, all of them ASCII alphanumerics. Two inputs show otherwise: the 18
  characters \<open>001Vc00000PHoN1!!!\<close>, whose last three are not alphanumeric, and the 16
  characters of \<open>001Vc00000PHoN1\<close> after a space are both normalised to \<open>001Vc00000PHoN1\<close>,
  and decode mode runs on each of them to the exit code 0.
\<close>

theorem normalize_to_15_counterexample:
  "length ''001Vc00000PHoN1!!!'' = 18 \<and>
   \<not> list_all (\<lambda>c. c \<in> set ALPHABET) ''001Vc00000PHoN1!!!'' \<and>
   normalize_to_15 ''001Vc00000PHoN1!!!'' = Inr ''001Vc00000PHoN1'' \<and>
   status (main example_env (example_args\<lparr>args_id := ''001Vc00000PHoN1!!!'', args_mode := Decode\<rparr>))
     = Exit 0 \<and>
   length '' 001Vc00000PHoN1'' = 16 \<and>
   normalize_to_15 '' 001Vc00000PHoN1'' = Inr ''001Vc00000PHoN1'' \<and>
   status (main example_env (example_args\<lparr>args_id := '' 001Vc00000PHoN1'', args_mode := Decode\<rparr>))
     = Exit 0"
proof -
  have 1: "\<not> list_all (\<lambda>c. c \<in> set ALPHABET) ''001Vc00000PHoN1!!!''"
    by (simp add: ALPHABET_def)
  have 2: "normalize_to_15 ''001Vc00000PHoN1!!!'' = Inr ''001Vc00000PHoN1''" by code_simp
  have 3: "status (main example_env
      (example_args\<lparr>args_id := ''001Vc00000PHoN1!!!'', args_mode := Decode\<rparr>)) = Exit 0"
    by code_simp
  have 4: "normalize_to_15 '' 001Vc00000PHoN1'' = Inr ''001Vc00000PHoN1''" by code_simp
  have 5: "status (main example_env
      (example_args\<lparr>args_id := '' 001Vc00000PHoN1'', args_mode := Decode\<rparr>)) = Exit 0"
    by code_simp
  have 6: "length ''001Vc00000PHoN1!!!'' = 18" "length '' 001Vc00000PHoN1'' = 16" by simp_all
  show ?thesis by (intro conjI) (rule 1 2 3 4 5 6)+
qed

text \<open>
  Claim C6, as the code has it. For an identifier of ASCII characters, \<open>normalize_to_15\<close>
  accepts it if and only if, once leading and trailing whitespace is stripped, it has
  exactly 15 or 18 characters and the first 15 of them are ASCII alphanumerics (the
  three characters after them are not examined). When it rejects the identifier,
  \<open>main\<close> returns the exit code 2 with one diagnostic on the error stream, nothing on
  standard output and no output file opened.
\<close>

theorem normalize_to_15_accepts:
  assumes "list_all (\<lambda>c. (of_char c :: nat) < 128) (args_id a)"
  shows "((\<exists>id15. normalize_to_15 (args_id a) = Inr id15) \<longleftrightarrow>
            (length (py_strip (args_id a)) = 15 \<or> length (py_strip (args_id a)) = 18) \<and>
            list_all (\<lambda>c. c \<in> set ALPHABET) (take 15 (py_strip (args_id a)))) \<and>
         ((\<exists>e. normalize_to_15 (args_id a) = Inl e) \<longrightarrow>
            status (main env a) = Exit 2 \<and> stdout (main env a) = [] \<and>
            length (stderr (main env a)) = 1 \<and> outfile_written (main env a) = None)"
proof -
  have "\<forall>c \<in> set (take 15 (py_strip (args_id a))). (of_char c :: nat) < 128"
    using assms by (auto simp: list_all_iff dest!: in_set_takeD set_py_strip)
  then have "list_all char_isalnum (take 15 (py_strip (args_id a))) \<longleftrightarrow>
      list_all (\<lambda>c. c \<in> set ALPHABET) (take 15 (py_strip (args_id a)))"
    by (auto simp: list_all_iff ascii_alnum_iff)
  then have acc: "(\<exists>id15. normalize_to_15 (args_id a) = Inr id15) \<longleftrightarrow>
            (length (py_strip (args_id a)) = 15 \<or> length (py_strip (args_id a)) = 18) \<and>
            list_all (\<lambda>c. c \<in> set ALPHABET) (take 15 (py_strip (args_id a)))"
    by (simp only: normalize_to_15_accepts_iff)
  have rej: "status (main env a) = Exit 2 \<and> stdout (main env a) = [] \<and>
      length (stderr (main env a)) = 1 \<and> outfile_written (main env a) = None"
    if "normalize_to_15 (args_id a) = Inl e" for e
    using that by (simp add: main_invalid_id invalid_input_fields)
  from acc rej show ?thesis by blast
qed

theorem normalize_to_15_accepts_witness:
  "list_all (\<lambda>c. (of_char c :: nat) < 128) (args_id (example_args\<lparr>args_id := ''001Vc0000-PHoN1''\<rparr>)) \<and>
   length (py_strip ''001Vc0000-PHoN1'') = 15 \<and>
   \<not> list_all (\<lambda>c. c \<in> set ALPHABET) (take 15 (py_strip ''001Vc0000-PHoN1'')) \<and>
   normalize_to_15 ''001Vc0000-PHoN1'' = Inl (ValueError ''Salesforce ID must be alphanumeric'') \<and>
   main example_env (example_args\<lparr>args_id := ''001Vc0000-PHoN1''\<rparr>) =
     \<lparr>status = Exit 2, stdout = [], stderr = [''Error: Salesforce ID must be alphanumeric''],
      outfile_written = None\<rparr>"
proof -
  have 1: "list_all (\<lambda>c. (of_char c :: nat) < 128) ''001Vc0000-PHoN1''" by simp
  have 2: "py_strip ''001Vc0000-PHoN1'' = ''001Vc0000-PHoN1''" by code_simp
  have 3: "\<not> list_all (\<lambda>c. c \<in> set ALPHABET) ''001Vc0000-PHoN1''" by (simp add: ALPHABET_def)
  have 4: "normalize_to_15 ''001Vc0000-PHoN1'' = Inl (ValueError ''Salesforce ID must be alphanumeric'')"
    by code_simp
  have 5: "main example_env (example_args\<lparr>args_id := ''001Vc0000-PHoN1''\<rparr>) =
     \<lparr>status = Exit 2, stdout = [], stderr = [''Error: Salesforce ID must be alphanumeric''],
      outfile_written = None\<rparr>"
    by code_simp
  show ?thesis
    using normalize_to_15_accepts [of "example_args\<lparr>args_id := ''001Vc0000-PHoN1''\<rparr>" example_env]
      1 2 3 4 5
    by (simp add: example_args_def)
qed

subsection \<open>Sequential enumeration\<close>

lemma make_id_Inr:
  assumes "length prefix7 = 7"
  shows "\<exists>id_out b62. make_id prefix7 v to18 = Inr (id_out, b62, clamp_record_value v)"
proof -
  obtain b62 where b: "int_to_base62 (clamp_record_value v) 8 = Inr b62" "length b62 = 8"
    using int_to_base62_8 clamp_record_value_range by blast
  with assms have "length (prefix7 @ b62) = 15" by simp
  then obtain suffix where "id15_to_18 (prefix7 @ b62) = Inr (prefix7 @ b62 @ suffix)"
    using id15_to_18_len15 [of "prefix7 @ b62"] by auto
  with b show ?thesis by (simp add: make_id_def Let_def)
qed

lemma compose_each_ok:
  assumes "length prefix7 = 7"
  shows "\<exists>ids. compose_each prefix7 to18 vs = (ids, None) \<and>
           list_all2 (\<lambda>v sfid_out. \<exists>b62 v'. make_id prefix7 v to18 = Inr (sfid_out, b62, v')) vs ids"
proof (induction vs)
  case Nil
  show ?case by simp
next
  case (Cons v vs)
  then obtain ids where ids: "compose_each prefix7 to18 vs = (ids, None)"
    "list_all2 (\<lambda>v sfid_out. \<exists>b62 v'. make_id prefix7 v to18 = Inr (sfid_out, b62, v')) vs ids"
    by blast
  obtain id_out b62 where m: "make_id prefix7 v to18 = Inr (id_out, b62, clamp_record_value v)"
    using make_id_Inr [OF assms] by blast
  have "compose_each prefix7 to18 (v # vs) = (id_out # ids, None)"
    by (simp add: m ids)
  moreover have "list_all2 (\<lambda>v sfid_out. \<exists>b62 v'. make_id prefix7 v to18 = Inr (sfid_out, b62, v'))
      (v # vs) (id_out # ids)"
    using m ids(2) by simp
  ultimately show ?case by blast
qed

lemma writer_prefix:
  "fst (writer fault outfile items) = None \<or>
   (\<exists>k. fst (writer fault outfile items) = Some (outfile, take k items))"
proof (cases fault)
  case NoFault
  then have "fst (writer fault outfile items) = Some (outfile, take (length items) items)"
    by (simp add: writer_def)
  then show ?thesis by blast
next
  case (OpenFails m)
  then show ?thesis by (simp add: writer_def)
next
  case (WriteFails j m)
  then have "fst (writer fault outfile items) = Some (outfile, take j items) \<or>
      fst (writer fault outfile items) = Some (outfile, take (length items) items)"
    by (simp add: writer_def)
  then show ?thesis by blast
next
  case (CloseFails m)
  then have "fst (writer fault outfile items) = Some (outfile, take (length items) items)"
    by (simp add: writer_def)
  then show ?thesis by blast
qed

lemma main_enumerate_sequential:
  assumes "values \<noteq> []" "args_threads a \<le> 1" "compose_each prefix7 (args_to18 a) values = (ids, None)"
  shows "(args_displayonly a \<longrightarrow>
            main_enumerate env a prefix7 values =
              \<lparr>status = Exit 0, stdout = ids, stderr = [], outfile_written = None\<rparr>) \<and>
         (\<not> args_displayonly a \<longrightarrow>
            stdout (main_enumerate env a prefix7 values) = [] \<and>
            (outfile_written (main_enumerate env a prefix7 values) = None \<or>
             (\<exists>k. outfile_written (main_enumerate env a prefix7 values) =
                Some (case args_outfile a of
                        None \<Rightarrow> env_default_outfile env
                      | Some p \<Rightarrow> if p = [] then env_default_outfile env else p,
                      take k (map (\<lambda>sfid_out. sfid_out @ [CHR 0x0A]) ids)))) \<and>
            (env_fault env = NoFault \<longrightarrow>
               main_enumerate env a prefix7 values =
                 \<lparr>status = Exit 0, stdout = [], stderr = [],
                  outfile_written =
                    Some (case args_outfile a of
                            None \<Rightarrow> env_default_outfile env
                          | Some p \<Rightarrow> if p = [] then env_default_outfile env else p,
                          map (\<lambda>sfid_out. sfid_out @ [CHR 0x0A]) ids)\<rparr>))"
proof -
  let ?outfile = "case args_outfile a of
                        None \<Rightarrow> env_default_outfile env
                      | Some p \<Rightarrow> if p = [] then env_default_outfile env else p"
  let ?items = "map (\<lambda>sfid_out. sfid_out @ [CHR 0x0A]) ids"
  have p: "produce_ids env a prefix7 values = (ids, None)"
    using assms(2,3) by (simp add: produce_ids_def)
  have d: "main_enumerate env a prefix7 values =
      \<lparr>status = Exit 0, stdout = ids, stderr = [], outfile_written = None\<rparr>"
    if "args_displayonly a"
    using that assms(1) by (simp add: main_enumerate_def p)
  have f1: "stdout (main_enumerate env a prefix7 values) = []"
    and f2: "outfile_written (main_enumerate env a prefix7 values) =
      fst (writer (env_fault env) ?outfile ?items)"
    if "\<not> args_displayonly a"
    using that assms(1)
    by (simp_all add: main_enumerate_def p Let_def split: prod.split option.split)
  have f3: "main_enumerate env a prefix7 values =
      \<lparr>status = Exit 0, stdout = [], stderr = [], outfile_written = Some (?outfile, ?items)\<rparr>"
    if "\<not> args_displayonly a" "env_fault env = NoFault"
    using that assms(1) by (simp add: main_enumerate_def p Let_def writer_def)
  from d f1 f2 f3 writer_prefix [of "env_fault env" ?outfile ?items] show ?thesis
    by (metis (no_types, lifting))
qed

text \<open>
  Claim C8. In an enumeration with \<open>args.threads <= 1\<close>, for a positive as for a negative
  \<open>seq\<close>, the identifiers emitted are the identifiers \<open>make_id\<close> composes from the generated
  values, one for each value and in the order of generation. With \<open>--displayonly\<close> they
  are the lines of standard output; otherwise nothing is printed and, when the output
  file takes every line, they are the lines of the file. Should the file fail, what was
  written to it is still an initial part of these lines, in the same order.
\<close>

theorem sequential_output_order:
  assumes id: "normalize_to_15 (args_id a) = Inr id15"
    and cur: "base62_to_int (drop 7 id15) = Inr cur"
    and mode: "args_mode a \<noteq> Decode"
    and seq: "args_seq a = Some seq" "seq \<noteq> 0"
    and start: "args_mode a = EnumFromValue \<Longrightarrow>
                  args_start a = Some start \<and> 0 \<le> start \<and> start \<le> MAX_BASE62_8"
    and threads: "args_threads a \<le> 1"
  shows "\<exists>ids.
           list_all2
             (\<lambda>v sfid_out. \<exists>b62 v'. make_id (take 7 id15) v (args_to18 a) = Inr (sfid_out, b62, v'))
             (gen_value_sequence (if args_mode a = EnumFromValue then start else cur) seq) ids \<and>
           (args_displayonly a \<longrightarrow>
              main env a = \<lparr>status = Exit 0, stdout = ids, stderr = [], outfile_written = None\<rparr>) \<and>
           (\<not> args_displayonly a \<longrightarrow>
              stdout (main env a) = [] \<and>
              (outfile_written (main env a) = None \<or>
               (\<exists>k. outfile_written (main env a) =
                  Some (case args_outfile a of
                          None \<Rightarrow> env_default_outfile env
                        | Some p \<Rightarrow> if p = [] then env_default_outfile env else p,
                        take k (map (\<lambda>sfid_out. sfid_out @ [CHR 0x0A]) ids)))) \<and>
              (env_fault env = NoFault \<longrightarrow>
                 main env a =
                   \<lparr>status = Exit 0, stdout = [], stderr = [],
                    outfile_written =
                      Some (case args_outfile a of
                              None \<Rightarrow> env_default_outfile env
                            | Some p \<Rightarrow> if p = [] then env_default_outfile env else p,
                            map (\<lambda>sfid_out. sfid_out @ [CHR 0x0A]) ids)\<rparr>))"
proof -
  let ?vs = "gen_value_sequence (if args_mode a = EnumFromValue then start else cur) seq"
  have len: "length (take 7 id15) = 7"
    using normalize_to_15_length [OF id] by simp
  have rng: "0 \<le> cur" "cur \<le> MAX_BASE62_8"
    using normalized_counter_range [OF id cur] by simp_all
  have ne: "?vs \<noteq> []"
    using rng start seq(2) by (simp add: gen_value_sequence_nonempty)
  have m: "main env a = main_enumerate env a (take 7 id15) ?vs"
    using main_enum [OF id cur mode] seq start by auto
  obtain ids where ids: "compose_each (take 7 id15) (args_to18 a) ?vs = (ids, None)"
    "list_all2
       (\<lambda>v sfid_out. \<exists>b62 v'. make_id (take 7 id15) v (args_to18 a) = Inr (sfid_out, b62, v'))
       ?vs ids"
    using compose_each_ok [OF len] by blast
  from main_enumerate_sequential [OF ne threads ids(1), of env] ids(2) show ?thesis
    unfolding m by blast
qed

theorem sequential_output_order_witness:
  "normalize_to_15 (args_id (example_args\<lparr>args_mode := EnumFromValue, args_start := Some 100, args_seq := Some (- 2), args_displayonly := False\<rparr>)) = Inr ''001Vc00000PHoN1'' \<and>
   base62_to_int (drop 7 ''001Vc00000PHoN1'') = Inr 373653603 \<and>
   args_mode (example_args\<lparr>args_mode := EnumFromValue, args_start := Some 100, args_seq := Some (- 2), args_displayonly := False\<rparr>) = EnumFromValue \<and> args_start (example_args\<lparr>args_mode := EnumFromValue, args_start := Some 100, args_seq := Some (- 2), args_displayonly := False\<rparr>) = Some 100 \<and> args_seq (example_args\<lparr>args_mode := EnumFromValue, args_start := Some 100, args_seq := Some (- 2), args_displayonly := False\<rparr>) = Some (- 2) \<and>
   args_threads (example_args\<lparr>args_mode := EnumFromValue, args_start := Some 100, args_seq := Some (- 2), args_displayonly := False\<rparr>) \<le> 1 \<and> env_fault example_env = NoFault \<and>
   gen_value_sequence 100 (- 2) = [100, 99] \<and>
   make_id ''001Vc00'' 100 True = Inr (''001Vc000000001cIAA'', ''0000001c'', 100) \<and>
   make_id ''001Vc00'' 99 True = Inr (''001Vc000000001bIAA'', ''0000001b'', 99) \<and>
   main example_env (example_args\<lparr>args_mode := EnumFromValue, args_start := Some 100, args_seq := Some (- 2), args_displayonly := False\<rparr>) =
     \<lparr>status = Exit 0, stdout = [], stderr = [],
      outfile_written =
        Some (''sfidenum-20250101-120000.txt'',
              [''001Vc000000001cIAA'' @ [CHR 0x0A], ''001Vc000000001bIAA'' @ [CHR 0x0A]])\<rparr>"
proof -
  have 1: "normalize_to_15 (args_id (example_args\<lparr>args_mode := EnumFromValue, args_start := Some 100, args_seq := Some (- 2), args_displayonly := False\<rparr>)) = Inr ''001Vc00000PHoN1''" by code_simp
  have 2: "base62_to_int (drop 7 ''001Vc00000PHoN1'') = Inr 373653603" by code_simp
  have 3: "gen_value_sequence 100 (- 2) = [100, 99]" by code_simp
  have 4: "make_id ''001Vc00'' 100 True = Inr (''001Vc000000001cIAA'', ''0000001c'', 100)"
    by code_simp
  have 5: "make_id ''001Vc00'' 99 True = Inr (''001Vc000000001bIAA'', ''0000001b'', 99)"
    by code_simp
  have 6: "main example_env (example_args\<lparr>args_mode := EnumFromValue, args_start := Some 100, args_seq := Some (- 2), args_displayonly := False\<rparr>) =
     \<lparr>status = Exit 0, stdout = [], stderr = [],
      outfile_written =
        Some (''sfidenum-20250101-120000.txt'',
              [''001Vc000000001cIAA'' @ [CHR 0x0A], ''001Vc000000001bIAA'' @ [CHR 0x0A]])\<rparr>"
    by code_simp
  have 7: "args_threads (example_args\<lparr>args_mode := EnumFromValue, args_start := Some 100, args_seq := Some (- 2), args_displayonly := False\<rparr>) \<le> 1" "env_fault example_env = NoFault"
    "args_mode (example_args\<lparr>args_mode := EnumFromValue, args_start := Some 100, args_seq := Some (- 2), args_displayonly := False\<rparr>) \<noteq> Decode" "args_seq (example_args\<lparr>args_mode := EnumFromValue, args_start := Some 100, args_seq := Some (- 2), args_displayonly := False\<rparr>) = Some (- 2)"
    "args_mode (example_args\<lparr>args_mode := EnumFromValue, args_start := Some 100, args_seq := Some (- 2), args_displayonly := False\<rparr>) = EnumFromValue" "args_start (example_args\<lparr>args_mode := EnumFromValue, args_start := Some 100, args_seq := Some (- 2), args_displayonly := False\<rparr>) = Some 100"
    by (simp_all add: example_args_def example_env_def)
  have 8: "(- 2 :: int) \<noteq> 0" by simp
  have 9: "args_start (example_args\<lparr>args_mode := EnumFromValue, args_start := Some 100, args_seq := Some (- 2), args_displayonly := False\<rparr>) = Some 100 \<and> (0 :: int) \<le> 100 \<and> 100 \<le> MAX_BASE62_8"
    using 7(6) by (simp add: MAX_eq)
  show ?thesis
    using sequential_output_order
      [of "(example_args\<lparr>args_mode := EnumFromValue, args_start := Some 100, args_seq := Some (- 2), args_displayonly := False\<rparr>)" "''001Vc00000PHoN1''" 373653603 "- 2" 100 example_env, OF 1 2 7(3) 7(4) 8 9 7(1)]
    by - (intro conjI, (rule 1 2 3 4 5 6 7)+)
qed

end
